theory Spec2Isabelle
  imports Main
begin

section \<open>Domain events and aggregates of the ticket-sales sample\<close>

text \<open>
  The Java sample (package \<open>com.fullcycle.ticketsales\<close>) is embedded method by method.
  A \<open>void\<close> method that mutates \<open>this\<close> and may throw becomes a function from the object
  before the call to a pair: the exception thrown, if any, and the object after the call.
  \<open>UUID.randomUUID()\<close> and \<open>Instant.now()\<close> read the environment, so the values they return
  are explicit arguments of every method that builds an event.
\<close>

type_synonym UUID = nat
type_synonym Instant = nat

text \<open>\<open>java.math.BigDecimal\<close>: unscaled value and scale.\<close>

type_synonym BigDecimal = "int \<times> int"

datatype OrderStatus = PENDING | PAID | CANCELLED

text \<open>
  The classes implementing \<open>DomainEvent\<close>. The first two fields of every constructor are
  \<open>eventId\<close> and \<open>occurredOn\<close>; the others are the payload in declaration order.
\<close>

datatype DomainEvent =
    OrderCreated UUID Instant string string string BigDecimal OrderStatus
  | OrderPaid UUID Instant string OrderStatus
  | OrderCancelled UUID Instant string OrderStatus
  | PartnerCreated UUID Instant string string
  | PartnerNameChanged UUID Instant string string

fun getEventName :: "DomainEvent \<Rightarrow> string" where
  "getEventName (OrderCreated _ _ _ _ _ _ _) = ''OrderCreated''"
| "getEventName (OrderPaid _ _ _ _) = ''OrderPaid''"
| "getEventName (OrderCancelled _ _ _ _) = ''OrderCancelled''"
| "getEventName (PartnerCreated _ _ _ _) = ''PartnerCreated''"
| "getEventName (PartnerNameChanged _ _ _ _) = ''PartnerNameChanged''"

fun getEventId :: "DomainEvent \<Rightarrow> UUID" where
  "getEventId (OrderCreated u _ _ _ _ _ _) = u"
| "getEventId (OrderPaid u _ _ _) = u"
| "getEventId (OrderCancelled u _ _ _) = u"
| "getEventId (PartnerCreated u _ _ _) = u"
| "getEventId (PartnerNameChanged u _ _ _) = u"

fun getOccurredOn :: "DomainEvent \<Rightarrow> Instant" where
  "getOccurredOn (OrderCreated _ t _ _ _ _ _) = t"
| "getOccurredOn (OrderPaid _ t _ _) = t"
| "getOccurredOn (OrderCancelled _ t _ _) = t"
| "getOccurredOn (PartnerCreated _ t _ _) = t"
| "getOccurredOn (PartnerNameChanged _ t _ _) = t"

text \<open>
  What a call can throw. \<open>Order\<close> signals an illegal state transition with
  \<open>IllegalStateException\<close>; \<open>Error\<close> stands for a rejected promise of the TypeScript
  sample.
\<close>

datatype throwable =
    IllegalStateException string
  | RuntimeException string
  | Error string

subsection \<open>AggregateRoot\<close>

record AggregateRoot =
  domainEvents :: "DomainEvent list"

definition addEvent :: "DomainEvent \<Rightarrow> 'a AggregateRoot_scheme \<Rightarrow> 'a AggregateRoot_scheme" where
  "addEvent event this = this\<lparr>domainEvents := domainEvents this @ [event]\<rparr>"

definition getDomainEvents :: "'a AggregateRoot_scheme \<Rightarrow> DomainEvent list" where
  "getDomainEvents this = domainEvents this"

definition clearEvents :: "'a AggregateRoot_scheme \<Rightarrow> 'a AggregateRoot_scheme" where
  "clearEvents this = this\<lparr>domainEvents := []\<rparr>"

definition hasEvents :: "'a AggregateRoot_scheme \<Rightarrow> bool" where
  "hasEvents this = (\<not> (domainEvents this = []))"

subsection \<open>Order\<close>

record Order = AggregateRoot +
  order_id :: string
  customerId :: string
  eventSpotId :: string
  amount :: BigDecimal
  status :: OrderStatus

text \<open>The private constructor: a new aggregate starts with an empty event list.\<close>

definition new_Order :: "string \<Rightarrow> string \<Rightarrow> string \<Rightarrow> BigDecimal \<Rightarrow> Order" where
  "new_Order i c s a =
     \<lparr>domainEvents = [], order_id = i, customerId = c, eventSpotId = s, amount = a,
      status = PENDING\<rparr>"

text \<open>
  \<open>Order.create\<close>: \<open>i\<close> is the string of the random UUID drawn for the order, \<open>uuid\<close> and
  \<open>now\<close> are the id and the time drawn by the constructor of \<open>OrderCreated\<close>.
\<close>

definition Order_create ::
  "string \<Rightarrow> UUID \<Rightarrow> Instant \<Rightarrow> string \<Rightarrow> string \<Rightarrow> BigDecimal \<Rightarrow> Order" where
  "Order_create i uuid now c s a =
     addEvent (OrderCreated uuid now i c s a PENDING) (new_Order i c s a)"

definition pay :: "UUID \<Rightarrow> Instant \<Rightarrow> Order \<Rightarrow> throwable option \<times> Order" where
  "pay uuid now this =
     (if status this \<noteq> PENDING
      then (Some (IllegalStateException ''Order can only be paid when status is PENDING''), this)
      else (let this1 = this\<lparr>status := PAID\<rparr>
            in (None, addEvent (OrderPaid uuid now (order_id this1) (status this1)) this1)))"

definition cancel :: "UUID \<Rightarrow> Instant \<Rightarrow> Order \<Rightarrow> throwable option \<times> Order" where
  "cancel uuid now this =
     (if status this = PAID
      then (Some (IllegalStateException ''Cannot cancel a paid order''), this)
      else (let this1 = this\<lparr>status := CANCELLED\<rparr>
            in (None, addEvent (OrderCancelled uuid now (order_id this1) (status this1)) this1)))"

subsection \<open>Partner\<close>

record Partner = AggregateRoot +
  partner_id :: string
  name :: string

definition new_Partner :: "string \<Rightarrow> string \<Rightarrow> Partner" where
  "new_Partner i n = \<lparr>domainEvents = [], partner_id = i, name = n\<rparr>"

definition Partner_create :: "string \<Rightarrow> UUID \<Rightarrow> Instant \<Rightarrow> string \<Rightarrow> Partner" where
  "Partner_create i uuid now n = addEvent (PartnerCreated uuid now i n) (new_Partner i n)"

definition changeName :: "UUID \<Rightarrow> Instant \<Rightarrow> string \<Rightarrow> Partner \<Rightarrow> throwable option \<times> Partner" where
  "changeName uuid now newName this =
     (let this1 = this\<lparr>name := newName\<rparr>
      in (None, addEvent (PartnerNameChanged uuid now (partner_id this1) newName) this1))"

section \<open>Collaborators and traces\<close>

text \<open>
  The framework publisher, the event emitter, the entity manager and the bodies of
  \<open>ApplicationService.start\<close>, \<open>ApplicationService.fail\<close> and
  \<open>DomainEventManager.publishForIntegrationEvent\<close> are not part of the sources. Every
  awaited call to one of them is an \<open>action\<close>; the trace lists the calls in the order
  they were made, each with the exception it ended with, if any. How a collaborator
  answers is a parameter: an environment maps the history so far and the call to its
  outcome. Collaborators are taken not to touch the aggregates they are handed.
\<close>

text \<open>
  Modelled from the spec: the TypeScript class \<open>AggregateRoot\<close> is not among the sources;
  its callers read \<open>aggregateRoot.events\<close>. The specification gives an aggregate a private
  ordered sequence of buffered events that preserves insertion order, so the field is the
  list of the events in the order they were recorded.
\<close>

record AggregateRootTS =
  events :: "DomainEvent list"

datatype action =
    PublishEvent DomainEvent
  | EmitAsync string DomainEvent
  | Flush
  | PublishForIntegrationEvent AggregateRootTS
  | Start
  | Fail

type_synonym trace = "(action \<times> throwable option) list"

type_synonym env = "trace \<Rightarrow> action \<Rightarrow> throwable option"

definition invoke :: "env \<Rightarrow> action \<Rightarrow> trace \<Rightarrow> throwable option \<times> trace" where
  "invoke env a tr = (env tr a, tr @ [(a, env tr a)])"

section \<open>The Spring pipeline\<close>

text \<open>
  Aggregates are objects: a transaction synchronization keeps a reference to the aggregate
  it was created for and reads its event list when the callback runs. The store maps
  references to objects. \<open>synchronizationActive\<close> and \<open>synchronizations\<close> are the state of
  \<open>TransactionSynchronizationManager\<close>: each registered synchronization is the anonymous
  class of \<open>publishAfterCommit\<close>, determined by the reference it closes over.
\<close>

type_synonym ref = nat

record 'a World =
  heap :: "ref \<Rightarrow> 'a AggregateRoot_scheme"
  synchronizationActive :: bool
  synchronizations :: "ref list"
  trace :: trace

text \<open>The loop of \<open>DomainEventPublisher.publishEvents\<close>: no handler around the call.\<close>

fun publishLoop :: "env \<Rightarrow> DomainEvent list \<Rightarrow> trace \<Rightarrow> throwable option \<times> trace" where
  "publishLoop env [] tr = (None, tr)"
| "publishLoop env (event # rest) tr =
     (case invoke env (PublishEvent event) tr of
        (Some x, tr') \<Rightarrow> (Some x, tr')
      | (None, tr') \<Rightarrow> publishLoop env rest tr')"

definition publishEvents :: "env \<Rightarrow> ref \<Rightarrow> 'a World \<Rightarrow> throwable option \<times> 'a World" where
  "publishEvents env aggregateRoot w =
     (case publishLoop env (getDomainEvents (heap w aggregateRoot)) (trace w) of
        (Some x, tr') \<Rightarrow> (Some x, w\<lparr>trace := tr'\<rparr>)
      | (None, tr') \<Rightarrow>
          (None, w\<lparr>heap := (heap w)(aggregateRoot := clearEvents (heap w aggregateRoot)),
                    trace := tr'\<rparr>))"

definition STATUS_COMMITTED :: int where
  "STATUS_COMMITTED = 0"

definition STATUS_ROLLED_BACK :: int where
  "STATUS_ROLLED_BACK = 1"

definition STATUS_UNKNOWN :: int where
  "STATUS_UNKNOWN = 2"

definition afterCommit :: "env \<Rightarrow> ref \<Rightarrow> 'a World \<Rightarrow> throwable option \<times> 'a World" where
  "afterCommit env aggregateRoot w = publishEvents env aggregateRoot w"

definition afterCompletion :: "int \<Rightarrow> ref \<Rightarrow> 'a World \<Rightarrow> 'a World" where
  "afterCompletion st aggregateRoot w =
     (if st = STATUS_ROLLED_BACK
      then w\<lparr>heap := (heap w)(aggregateRoot := clearEvents (heap w aggregateRoot))\<rparr>
      else w)"

definition publishAfterCommit :: "env \<Rightarrow> ref \<Rightarrow> 'a World \<Rightarrow> throwable option \<times> 'a World" where
  "publishAfterCommit env aggregateRoot w =
     (if \<not> synchronizationActive w
      then publishEvents env aggregateRoot w
      else (None, w\<lparr>synchronizations := synchronizations w @ [aggregateRoot]\<rparr>))"

text \<open>
  The transaction manager's side of the \<open>TransactionSynchronization\<close> contract when a
  transaction is rolled back: \<open>afterCompletion(STATUS_ROLLED_BACK)\<close> runs on every
  registered synchronization in registration order, \<open>afterCommit\<close> on none, and the
  synchronizations are then dropped.
\<close>

fun triggerAfterCompletion :: "int \<Rightarrow> ref list \<Rightarrow> 'a World \<Rightarrow> 'a World" where
  "triggerAfterCompletion st [] w = w"
| "triggerAfterCompletion st (s # ss) w = triggerAfterCompletion st ss (afterCompletion st s w)"

definition rollback :: "'a World \<Rightarrow> 'a World" where
  "rollback w =
     (triggerAfterCompletion STATUS_ROLLED_BACK (synchronizations w) w)
       \<lparr>synchronizationActive := False, synchronizations := []\<rparr>"

section \<open>The NestJS pipeline\<close>

text \<open>
  \<open>UnitOfWorkMikroOrm\<close> has one field, the entity manager, and keeps no state of its own.
  The entity manager belongs to the object-relational mapper, not to the sources. The code
  reads the two stacks of its unit of work and nothing else of it, so the entity manager is
  these two stacks, each given as the list of the aggregates it yields, in the order it
  yields them and as they are when \<open>finish\<close> runs. How the mapper fills the stacks is not
  modelled. The flush a repository may perform inside a use case is the use case's own and
  is not traced.
\<close>

record EntityManager =
  persistStack :: "AggregateRootTS list"
  removeStack :: "AggregateRootTS list"

definition getAggregateRoots :: "EntityManager \<Rightarrow> AggregateRootTS list" where
  "getAggregateRoots em = persistStack em @ removeStack em"

definition commit :: "env \<Rightarrow> trace \<Rightarrow> throwable option \<times> trace" where
  "commit env tr = invoke env Flush tr"

text \<open>\<open>DomainEventManager.publish\<close>: the loop over \<open>aggregateRoot.events\<close>.\<close>

fun emitEach :: "env \<Rightarrow> DomainEvent list \<Rightarrow> trace \<Rightarrow> throwable option \<times> trace" where
  "emitEach env [] tr = (None, tr)"
| "emitEach env (event # rest) tr =
     (case invoke env (EmitAsync (getEventName event) event) tr of
        (Some x, tr') \<Rightarrow> (Some x, tr')
      | (None, tr') \<Rightarrow> emitEach env rest tr')"

definition publish :: "env \<Rightarrow> AggregateRootTS \<Rightarrow> trace \<Rightarrow> throwable option \<times> trace" where
  "publish env aggregateRoot tr = emitEach env (events aggregateRoot) tr"

text \<open>The first and the third loop of \<open>ApplicationService.finish\<close>.\<close>

fun publishAll :: "env \<Rightarrow> AggregateRootTS list \<Rightarrow> trace \<Rightarrow> throwable option \<times> trace" where
  "publishAll env [] tr = (None, tr)"
| "publishAll env (aggregateRoot # rest) tr =
     (case publish env aggregateRoot tr of
        (Some x, tr') \<Rightarrow> (Some x, tr')
      | (None, tr') \<Rightarrow> publishAll env rest tr')"

fun publishAllForIntegrationEvent ::
  "env \<Rightarrow> AggregateRootTS list \<Rightarrow> trace \<Rightarrow> throwable option \<times> trace" where
  "publishAllForIntegrationEvent env [] tr = (None, tr)"
| "publishAllForIntegrationEvent env (aggregateRoot # rest) tr =
     (case invoke env (PublishForIntegrationEvent aggregateRoot) tr of
        (Some x, tr') \<Rightarrow> (Some x, tr')
      | (None, tr') \<Rightarrow> publishAllForIntegrationEvent env rest tr')"

definition finish :: "env \<Rightarrow> EntityManager \<Rightarrow> trace \<Rightarrow> throwable option \<times> trace" where
  "finish env em tr =
     (let aggregateRoots = getAggregateRoots em
      in case publishAll env aggregateRoots tr of
           (Some x, tr1) \<Rightarrow> (Some x, tr1)
         | (None, tr1) \<Rightarrow>
             (case commit env tr1 of
                (Some x, tr2) \<Rightarrow> (Some x, tr2)
              | (None, tr2) \<Rightarrow> publishAllForIntegrationEvent env aggregateRoots tr2))"

text \<open>The \<open>catch\<close> block of \<open>ApplicationService.run\<close>: \<open>await this.fail(); throw e\<close>.\<close>

definition catch_block :: "env \<Rightarrow> throwable \<Rightarrow> trace \<Rightarrow> (throwable + 'r) \<times> trace" where
  "catch_block env e tr =
     (case invoke env Fail tr of
        (Some y, tr') \<Rightarrow> (Inl y, tr')
      | (None, tr') \<Rightarrow> (Inl e, tr'))"

text \<open>
  \<open>ApplicationService.run\<close>. The callback is the use case: it either throws or returns its
  result, having put the aggregates it touched on the entity manager's stacks.
\<close>

definition run ::
  "env \<Rightarrow> (EntityManager \<Rightarrow> throwable + 'r \<times> EntityManager) \<Rightarrow> EntityManager \<Rightarrow> trace
     \<Rightarrow> (throwable + 'r) \<times> trace" where
  "run env callback em tr =
     (case invoke env Start tr of
        (Some x, tr0) \<Rightarrow> (Inl x, tr0)
      | (None, tr0) \<Rightarrow>
          (case callback em of
             Inl e \<Rightarrow> catch_block env e tr0
           | Inr (result, em') \<Rightarrow>
               (case finish env em' tr0 of
                  (Some e, tr1) \<Rightarrow> catch_block env e tr1
                | (None, tr1) \<Rightarrow> (Inr result, tr1))))"

section \<open>Reading a trace\<close>

fun isEmitAsync :: "action \<times> throwable option \<Rightarrow> bool" where
  "isEmitAsync (EmitAsync _ _, _) = True"
| "isEmitAsync _ = False"

fun isIntegration :: "action \<times> throwable option \<Rightarrow> bool" where
  "isIntegration (PublishForIntegrationEvent _, _) = True"
| "isIntegration _ = False"

fun isFlush :: "action \<times> throwable option \<Rightarrow> bool" where
  "isFlush (Flush, _) = True"
| "isFlush _ = False"

text \<open>The events handed to the domain subscribers, in the order they were handed.\<close>

fun emitted :: "trace \<Rightarrow> DomainEvent list" where
  "emitted [] = []"
| "emitted ((EmitAsync _ event, _) # rest) = event # emitted rest"
| "emitted (_ # rest) = emitted rest"

text \<open>After the first integration hand-off no event goes to a domain subscriber.\<close>

definition domainBeforeIntegration :: "trace \<Rightarrow> bool" where
  "domainBeforeIntegration tr =
     (\<not> list_ex isEmitAsync (dropWhile (\<lambda>x. \<not> isIntegration x) tr))"

text \<open>No integration hand-off is made before a commit has returned normally.\<close>

definition commitBeforeIntegration :: "trace \<Rightarrow> bool" where
  "commitBeforeIntegration tr =
     (\<not> list_ex isIntegration (takeWhile (\<lambda>x. x \<noteq> (Flush, None)) tr))"

text \<open>Every event goes to the domain subscribers before the commit is attempted.\<close>

definition domainBeforeCommit :: "trace \<Rightarrow> bool" where
  "domainBeforeCommit tr =
     (\<not> list_ex isEmitAsync (dropWhile (\<lambda>x. \<not> isFlush x) tr))"

text \<open>The order the specification asks for: no event reaches a domain subscriber before a
  commit has returned normally.\<close>

definition commitBeforeDomain :: "trace \<Rightarrow> bool" where
  "commitBeforeDomain tr =
     (\<not> list_ex isEmitAsync (takeWhile (\<lambda>x. x \<noteq> (Flush, None)) tr))"

section \<open>Sample environments and objects\<close>

text \<open>
  Concrete collaborators and objects for the examples: an environment in which every call
  returns normally, one in which the entity manager's flush fails, and one in which
  publishing a \<open>PartnerNameChanged\<close> event fails because a listener for that kind of event
  throws; a world in which every reference holds the given aggregate; an entity manager
  with empty stacks; and a use case that refuses to run when the unit of work already
  tracks an aggregate and otherwise persists the given aggregate, without flushing, and
  returns it, which leaves that aggregate alone on the persist stack. It is not the
  callback of \<open>PartnerService.create\<close>, whose repository flushes.
\<close>

definition env_ok :: env where
  "env_ok tr a = None"

definition env_flush_fails :: env where
  "env_flush_fails tr a = (if a = Flush then Some (Error ''flush failed'') else None)"

definition env_listener_fails :: env where
  "env_listener_fails tr a =
     (case a of
        PublishEvent event \<Rightarrow>
          if getEventName event = ''PartnerNameChanged''
          then Some (RuntimeException ''listener failed'') else None
      | _ \<Rightarrow> None)"

definition world_of :: "'a AggregateRoot_scheme \<Rightarrow> bool \<Rightarrow> 'a World" where
  "world_of a active =
     \<lparr>heap = (\<lambda>_. a), synchronizationActive = active, synchronizations = [], trace = []\<rparr>"

definition em_empty :: EntityManager where
  "em_empty = \<lparr>persistStack = [], removeStack = []\<rparr>"

definition persist_use_case ::
  "AggregateRootTS \<Rightarrow> EntityManager \<Rightarrow> throwable + AggregateRootTS \<times> EntityManager" where
  "persist_use_case a em =
     (if getAggregateRoots em = []
      then Inr (a, \<lparr>persistStack = [a], removeStack = []\<rparr>)
      else Inl (Error ''unit of work in use''))"

section \<open>Properties of the aggregates\<close>

lemma pay_legal:
  "status this = PENDING \<Longrightarrow>
   pay uuid now this =
     (None, this\<lparr>domainEvents := domainEvents this @ [OrderPaid uuid now (order_id this) PAID],
                  status := PAID\<rparr>)"
  by (simp add: pay_def addEvent_def Let_def)

lemma pay_illegal:
  "status this \<noteq> PENDING \<Longrightarrow>
   pay uuid now this =
     (Some (IllegalStateException ''Order can only be paid when status is PENDING''), this)"
  by (simp add: pay_def)

lemma cancel_legal:
  "status this \<noteq> PAID \<Longrightarrow>
   cancel uuid now this =
     (None, this\<lparr>domainEvents := domainEvents this @ [OrderCancelled uuid now (order_id this) CANCELLED],
                  status := CANCELLED\<rparr>)"
  by (simp add: cancel_def addEvent_def Let_def)

lemma cancel_illegal:
  "status this = PAID \<Longrightarrow>
   cancel uuid now this = (Some (IllegalStateException ''Cannot cancel a paid order''), this)"
  by (simp add: cancel_def)

text \<open>
  Claim C10. \<open>Partner.changeName\<close> checks nothing and throws nothing, whatever the new
  name (the empty string included): it sets the name, keeps the id and appends exactly one
  \<open>PartnerNameChanged\<close> event carrying the partner id and the new name, so the event list
  grows by one.
\<close>

theorem changeName_always_succeeds:
  "changeName uuid now newName this =
     (None, this\<lparr>domainEvents := domainEvents this @
                     [PartnerNameChanged uuid now (partner_id this) newName],
                  name := newName\<rparr>)
   \<and> name (snd (changeName uuid now newName this)) = newName
   \<and> partner_id (snd (changeName uuid now newName this)) = partner_id this
   \<and> getDomainEvents (snd (changeName uuid now newName this)) =
       getDomainEvents this @ [PartnerNameChanged uuid now (partner_id this) newName]
   \<and> length (getDomainEvents (snd (changeName uuid now newName this))) =
       length (getDomainEvents this) + 1"
  by (simp add: changeName_def addEvent_def getDomainEvents_def Let_def)

text \<open>
  Claim C3. Whenever a business method of an aggregate signals an illegal state transition
  (\<open>Order.pay\<close> and \<open>Order.cancel\<close> throw \<open>IllegalStateException\<close>), the object after
  the call is the object before it: same fields, same event list. \<open>Partner.changeName\<close>,
  the only other business method, never signals.
\<close>

theorem illegal_transition_leaves_aggregate_unchanged:
  "(fst (pay uuid now this) \<noteq> None \<longrightarrow>
      snd (pay uuid now this) = this
      \<and> getDomainEvents (snd (pay uuid now this)) = getDomainEvents this)
   \<and> (fst (cancel uuid now this) \<noteq> None \<longrightarrow>
      snd (cancel uuid now this) = this
      \<and> getDomainEvents (snd (cancel uuid now this)) = getDomainEvents this)
   \<and> fst (changeName uuid now newName partner) = None"
  by (simp add: pay_def cancel_def changeName_def Let_def)

text \<open>
  A paid order: paying it again and cancelling it both throw and leave it as it was, with
  its two events.
\<close>

theorem illegal_transition_leaves_aggregate_unchanged_witness:
  "fst (pay 7 70 (snd (pay 2 20 (Order_create ''o1'' 11 10 ''c1'' ''s1'' (1000, 2))))) \<noteq> None
   \<and> snd (pay 7 70 (snd (pay 2 20 (Order_create ''o1'' 11 10 ''c1'' ''s1'' (1000, 2)))))
       = snd (pay 2 20 (Order_create ''o1'' 11 10 ''c1'' ''s1'' (1000, 2)))
   \<and> fst (cancel 8 80 (snd (pay 2 20 (Order_create ''o1'' 11 10 ''c1'' ''s1'' (1000, 2))))) \<noteq> None
   \<and> snd (cancel 8 80 (snd (pay 2 20 (Order_create ''o1'' 11 10 ''c1'' ''s1'' (1000, 2)))))
       = snd (pay 2 20 (Order_create ''o1'' 11 10 ''c1'' ''s1'' (1000, 2)))
   \<and> getDomainEvents (snd (pay 7 70 (snd (pay 2 20 (Order_create ''o1'' 11 10 ''c1'' ''s1'' (1000, 2))))))
       = [OrderCreated 11 10 ''o1'' ''c1'' ''s1'' (1000, 2) PENDING, OrderPaid 2 20 ''o1'' PAID]"
proof -
  have p: "fst (pay 7 70 (snd (pay 2 20 (Order_create ''o1'' 11 10 ''c1'' ''s1'' (1000, 2))))) \<noteq> None"
    by (simp add: pay_def Order_create_def new_Order_def addEvent_def Let_def)
  have c: "fst (cancel 8 80 (snd (pay 2 20 (Order_create ''o1'' 11 10 ''c1'' ''s1'' (1000, 2))))) \<noteq> None"
    by (simp add: pay_def cancel_def Order_create_def new_Order_def addEvent_def Let_def)
  have e: "getDomainEvents (snd (pay 2 20 (Order_create ''o1'' 11 10 ''c1'' ''s1'' (1000, 2))))
       = [OrderCreated 11 10 ''o1'' ''c1'' ''s1'' (1000, 2) PENDING, OrderPaid 2 20 ''o1'' PAID]"
    by (simp add: pay_def Order_create_def new_Order_def addEvent_def getDomainEvents_def Let_def)
  from illegal_transition_leaves_aggregate_unchanged
         [of 7 70 "snd (pay 2 20 (Order_create ''o1'' 11 10 ''c1'' ''s1'' (1000, 2)))"]
       illegal_transition_leaves_aggregate_unchanged
         [of 8 80 "snd (pay 2 20 (Order_create ''o1'' 11 10 ''c1'' ''s1'' (1000, 2)))"]
       p c e
  show ?thesis by simp
qed

text \<open>
  Claim C4, as stated, asks every transition attempted from \<open>CANCELLED\<close> to fail. The
  guard of \<open>Order.cancel\<close> rejects \<open>PAID\<close> only: cancelling an order that was created and
  cancelled succeeds again and records a second \<open>OrderCancelled\<close> event.
\<close>

theorem cancel_from_cancelled_counterexample:
  "status (snd (cancel 2 20 (Order_create ''o1'' 11 10 ''c1'' ''s1'' (1000, 2)))) = CANCELLED
   \<and> fst (cancel 3 30 (snd (cancel 2 20 (Order_create ''o1'' 11 10 ''c1'' ''s1'' (1000, 2))))) = None
   \<and> getDomainEvents
        (snd (cancel 3 30 (snd (cancel 2 20 (Order_create ''o1'' 11 10 ''c1'' ''s1'' (1000, 2))))))
      = [OrderCreated 11 10 ''o1'' ''c1'' ''s1'' (1000, 2) PENDING,
         OrderCancelled 2 20 ''o1'' CANCELLED,
         OrderCancelled 3 30 ''o1'' CANCELLED]"
  by (simp add: cancel_def Order_create_def new_Order_def addEvent_def getDomainEvents_def Let_def)

text \<open>
  Claim C4, amended. \<open>pay\<close> throws on every order that is not \<open>PENDING\<close> and \<open>cancel\<close>
  throws on a \<open>PAID\<close> order, both leaving the order unchanged; \<open>pay\<close> on a \<open>PENDING\<close>
  order and \<open>cancel\<close> on any order that is not \<open>PAID\<close> (\<open>PENDING\<close> or \<open>CANCELLED\<close>)
  succeed, set the new status and append exactly one event that carries the order id and
  the new status.
\<close>

theorem order_state_machine:
  "(status this \<noteq> PENDING \<longrightarrow>
      pay uuid now this =
        (Some (IllegalStateException ''Order can only be paid when status is PENDING''), this))
   \<and> (status this = PAID \<longrightarrow>
      cancel uuid now this = (Some (IllegalStateException ''Cannot cancel a paid order''), this))
   \<and> (status this = PENDING \<longrightarrow>
      pay uuid now this =
        (None, this\<lparr>domainEvents := domainEvents this @ [OrderPaid uuid now (order_id this) PAID],
                     status := PAID\<rparr>))
   \<and> (status this \<noteq> PAID \<longrightarrow>
      cancel uuid now this =
        (None, this\<lparr>domainEvents := domainEvents this @
                        [OrderCancelled uuid now (order_id this) CANCELLED],
                     status := CANCELLED\<rparr>))"
  by (simp add: pay_legal pay_illegal cancel_legal cancel_illegal)

text \<open>
  The four cases on a created order: it can be paid or cancelled; once paid it can be
  neither paid nor cancelled.
\<close>

theorem order_state_machine_witness:
  "status (Order_create ''o1'' 11 10 ''c1'' ''s1'' (1000, 2)) = PENDING
   \<and> pay 2 20 (Order_create ''o1'' 11 10 ''c1'' ''s1'' (1000, 2)) =
       (None, \<lparr>domainEvents = [OrderCreated 11 10 ''o1'' ''c1'' ''s1'' (1000, 2) PENDING,
                                OrderPaid 2 20 ''o1'' PAID],
               order_id = ''o1'', customerId = ''c1'', eventSpotId = ''s1'', amount = (1000, 2),
               status = PAID\<rparr>)
   \<and> status (snd (pay 2 20 (Order_create ''o1'' 11 10 ''c1'' ''s1'' (1000, 2)))) = PAID
   \<and> pay 3 30 (snd (pay 2 20 (Order_create ''o1'' 11 10 ''c1'' ''s1'' (1000, 2)))) =
       (Some (IllegalStateException ''Order can only be paid when status is PENDING''),
        snd (pay 2 20 (Order_create ''o1'' 11 10 ''c1'' ''s1'' (1000, 2))))
   \<and> cancel 3 30 (snd (pay 2 20 (Order_create ''o1'' 11 10 ''c1'' ''s1'' (1000, 2)))) =
       (Some (IllegalStateException ''Cannot cancel a paid order''),
        snd (pay 2 20 (Order_create ''o1'' 11 10 ''c1'' ''s1'' (1000, 2))))
   \<and> cancel 2 20 (Order_create ''o1'' 11 10 ''c1'' ''s1'' (1000, 2)) =
       (None, \<lparr>domainEvents = [OrderCreated 11 10 ''o1'' ''c1'' ''s1'' (1000, 2) PENDING,
                                OrderCancelled 2 20 ''o1'' CANCELLED],
               order_id = ''o1'', customerId = ''c1'', eventSpotId = ''s1'', amount = (1000, 2),
               status = CANCELLED\<rparr>)"
proof -
  have s0: "status (Order_create ''o1'' 11 10 ''c1'' ''s1'' (1000, 2)) = PENDING"
    by (simp add: Order_create_def new_Order_def addEvent_def)
  have s1: "status (snd (pay 2 20 (Order_create ''o1'' 11 10 ''c1'' ''s1'' (1000, 2)))) = PAID"
    by (simp add: pay_def Order_create_def new_Order_def addEvent_def Let_def)
  have v: "Order_create ''o1'' 11 10 ''c1'' ''s1'' (1000, 2) =
      \<lparr>domainEvents = [OrderCreated 11 10 ''o1'' ''c1'' ''s1'' (1000, 2) PENDING],
       order_id = ''o1'', customerId = ''c1'', eventSpotId = ''s1'', amount = (1000, 2),
       status = PENDING\<rparr>"
    by (simp add: Order_create_def new_Order_def addEvent_def)
  from order_state_machine [of "Order_create ''o1'' 11 10 ''c1'' ''s1'' (1000, 2)" 2 20]
       order_state_machine [of "snd (pay 2 20 (Order_create ''o1'' 11 10 ''c1'' ''s1'' (1000, 2)))" 3 30]
       s0 s1
  show ?thesis by (simp add: v)
qed

section \<open>Properties of the Spring pipeline\<close>

lemma publishLoop_None:
  "fst (publishLoop env es tr) = None \<Longrightarrow>
   snd (publishLoop env es tr) = tr @ map (\<lambda>e. (PublishEvent e, None)) es"
  by (induction es arbitrary: tr) (auto simp: invoke_def split: option.splits)

lemma publishLoop_Some:
  "fst (publishLoop env es tr) = Some x \<Longrightarrow>
   \<exists>pre e post. es = pre @ e # post
      \<and> snd (publishLoop env es tr) =
          tr @ map (\<lambda>e. (PublishEvent e, None)) pre @ [(PublishEvent e, Some x)]"
proof (induction es arbitrary: tr)
  case Nil
  then show ?case by simp
next
  case (Cons e es)
  show ?case
  proof (cases "env tr (PublishEvent e)")
    case None
    with Cons.prems have "fst (publishLoop env es (tr @ [(PublishEvent e, None)])) = Some x"
      by (simp add: invoke_def)
    from Cons.IH [OF this] obtain pre e' post where
      q: "es = pre @ e' # post"
         "snd (publishLoop env es (tr @ [(PublishEvent e, None)])) =
            (tr @ [(PublishEvent e, None)]) @ map (\<lambda>e. (PublishEvent e, None)) pre
              @ [(PublishEvent e', Some x)]"
      by blast
    have "e # es = (e # pre) @ e' # post" using q(1) by simp
    moreover have "snd (publishLoop env (e # es) tr) =
          tr @ map (\<lambda>e. (PublishEvent e, None)) (e # pre) @ [(PublishEvent e', Some x)]"
      using None q(2) by (simp add: invoke_def)
    ultimately show ?thesis by blast
  next
    case (Some y)
    with Cons.prems have xy: "y = x" by (simp add: invoke_def)
    have "e # es = [] @ e # es" by simp
    moreover have "snd (publishLoop env (e # es) tr) =
          tr @ map (\<lambda>e. (PublishEvent e, None)) [] @ [(PublishEvent e, Some x)]"
      using Some xy by (simp add: invoke_def)
    ultimately show ?thesis by blast
  qed
qed

lemma publishLoop_ok:
  "\<forall>tr e. env tr (PublishEvent e) = None \<Longrightarrow>
   publishLoop env es tr = (None, tr @ map (\<lambda>e. (PublishEvent e, None)) es)"
  by (induction es arbitrary: tr) (simp_all add: invoke_def)

lemma publishEvents_result:
  "fst (publishEvents env r w) = fst (publishLoop env (getDomainEvents (heap w r)) (trace w))"
  by (cases "publishLoop env (getDomainEvents (heap w r)) (trace w)")
     (auto simp: publishEvents_def split: option.splits)

lemma publishEvents_trace:
  "trace (snd (publishEvents env r w)) = snd (publishLoop env (getDomainEvents (heap w r)) (trace w))"
  by (cases "publishLoop env (getDomainEvents (heap w r)) (trace w)")
     (auto simp: publishEvents_def split: option.splits)

lemma publishEvents_heap_Some:
  "fst (publishEvents env r w) = Some x \<Longrightarrow> heap (snd (publishEvents env r w)) = heap w"
  by (cases "publishLoop env (getDomainEvents (heap w r)) (trace w)")
     (auto simp: publishEvents_def split: option.splits)

lemma publishEvents_heap_None:
  "fst (publishEvents env r w) = None \<Longrightarrow>
   heap (snd (publishEvents env r w)) = (heap w)(r := clearEvents (heap w r))"
  by (cases "publishLoop env (getDomainEvents (heap w r)) (trace w)")
     (auto simp: publishEvents_def split: option.splits)

lemma publishEvents_synchronizations:
  "synchronizations (snd (publishEvents env r w)) = synchronizations w
   \<and> synchronizationActive (snd (publishEvents env r w)) = synchronizationActive w"
  by (cases "publishLoop env (getDomainEvents (heap w r)) (trace w)")
     (auto simp: publishEvents_def split: option.splits)

lemma triggerAfterCompletion_trace:
  "trace (triggerAfterCompletion st ss w) = trace w"
  by (induction ss arbitrary: w) (simp_all add: afterCompletion_def)

lemma triggerAfterCompletion_rolled_back_heap:
  "heap (triggerAfterCompletion STATUS_ROLLED_BACK ss w) r =
     (if r \<in> set ss then clearEvents (heap w r) else heap w r)"
  by (induction ss arbitrary: w) (auto simp: afterCompletion_def clearEvents_def)

text \<open>
  Claim C2. When a transaction is rolled back, nothing is handed to the publisher (the
  trace is unchanged), every aggregate for which a synchronization was registered has an
  empty event list afterwards, and no synchronization is left. In particular an aggregate
  registered with \<open>publishAfterCommit\<close> inside an active transaction that is then rolled
  back has had none of its events dispatched and holds none.
\<close>

theorem rollback_discards:
  "trace (rollback w) = trace w
   \<and> (\<forall>r \<in> set (synchronizations w). getDomainEvents (heap (rollback w) r) = [])
   \<and> synchronizations (rollback w) = []
   \<and> (synchronizationActive w \<longrightarrow>
        trace (rollback (snd (publishAfterCommit env r w))) = trace w
        \<and> getDomainEvents (heap (rollback (snd (publishAfterCommit env r w))) r) = [])"
  by (simp add: rollback_def triggerAfterCompletion_trace triggerAfterCompletion_rolled_back_heap
        publishAfterCommit_def getDomainEvents_def clearEvents_def)

text \<open>
  A partner created inside a transaction, registered and rolled back: its
  \<open>PartnerCreated\<close> event reaches nobody and its event list ends empty.
\<close>

theorem rollback_discards_witness:
  "synchronizationActive (world_of (Partner_create ''p1'' 11 10 ''Acme'') True)
   \<and> getDomainEvents (heap (world_of (Partner_create ''p1'' 11 10 ''Acme'') True) 0)
       = [PartnerCreated 11 10 ''p1'' ''Acme'']
   \<and> synchronizations (snd (publishAfterCommit env_ok 0
         (world_of (Partner_create ''p1'' 11 10 ''Acme'') True))) = [0]
   \<and> trace (rollback (snd (publishAfterCommit env_ok 0
         (world_of (Partner_create ''p1'' 11 10 ''Acme'') True)))) = []
   \<and> getDomainEvents (heap (rollback (snd (publishAfterCommit env_ok 0
         (world_of (Partner_create ''p1'' 11 10 ''Acme'') True)))) 0) = []"
proof -
  let ?w = "world_of (Partner_create ''p1'' 11 10 ''Acme'') True"
  have a: "synchronizationActive ?w" by (simp add: world_of_def)
  have e: "getDomainEvents (heap ?w 0) = [PartnerCreated 11 10 ''p1'' ''Acme'']"
    by (simp add: getDomainEvents_def world_of_def Partner_create_def new_Partner_def
          addEvent_def)
  have s: "synchronizations (snd (publishAfterCommit env_ok 0 ?w)) = [0]"
    by (simp add: publishAfterCommit_def world_of_def)
  have t: "trace ?w = []" by (simp add: world_of_def)
  from rollback_discards [where w = "snd (publishAfterCommit env_ok 0 ?w)"] s
  have 1: "getDomainEvents (heap (rollback (snd (publishAfterCommit env_ok 0 ?w))) 0) = []"
    by simp
  from rollback_discards [where w = ?w and env = env_ok and r = 0] a t
  have 2: "trace (rollback (snd (publishAfterCommit env_ok 0 ?w))) = []"
    by simp
  from a e s 1 2 show ?thesis by simp
qed

text \<open>
  Claim C5, as stated, asks that a failing handler neither stop the dispatch of the later
  events nor reach the caller. \<open>publishEvents\<close> has no handler around
  \<open>publishEvent\<close>: with a partner that was created and renamed twice and a listener for
  \<open>PartnerNameChanged\<close> that throws, the call ends with that exception after the second
  event, the third event is never handed to the publisher and the buffer keeps all three.
\<close>

theorem publishEvents_aborts_on_failure_counterexample:
  "getDomainEvents (snd (changeName 33 30 ''C'' (snd (changeName 22 20 ''B''
        (Partner_create ''p1'' 11 10 ''A'')))))
     = [PartnerCreated 11 10 ''p1'' ''A'', PartnerNameChanged 22 20 ''p1'' ''B'',
        PartnerNameChanged 33 30 ''p1'' ''C'']
   \<and> fst (publishEvents env_listener_fails 0
        (world_of (snd (changeName 33 30 ''C'' (snd (changeName 22 20 ''B''
            (Partner_create ''p1'' 11 10 ''A''))))) False))
     = Some (RuntimeException ''listener failed'')
   \<and> trace (snd (publishEvents env_listener_fails 0
        (world_of (snd (changeName 33 30 ''C'' (snd (changeName 22 20 ''B''
            (Partner_create ''p1'' 11 10 ''A''))))) False)))
     = [(PublishEvent (PartnerCreated 11 10 ''p1'' ''A''), None),
        (PublishEvent (PartnerNameChanged 22 20 ''p1'' ''B''),
         Some (RuntimeException ''listener failed''))]
   \<and> getDomainEvents (heap (snd (publishEvents env_listener_fails 0
        (world_of (snd (changeName 33 30 ''C'' (snd (changeName 22 20 ''B''
            (Partner_create ''p1'' 11 10 ''A''))))) False))) 0)
     = [PartnerCreated 11 10 ''p1'' ''A'', PartnerNameChanged 22 20 ''p1'' ''B'',
        PartnerNameChanged 33 30 ''p1'' ''C'']"
  by (simp add: publishEvents_def invoke_def getDomainEvents_def clearEvents_def world_of_def
        Partner_create_def new_Partner_def addEvent_def changeName_def Let_def
        env_listener_fails_def)

text \<open>
  Claim C5, amended. \<open>publishEvents\<close> hands the buffered events to the publisher one at a
  time in buffer order and isolates nothing. If the call returns normally, every event was
  handed over and the buffer is empty. If it throws, the exception is the one of the first
  hand-over that failed: the events before it were handed over, the ones after it were not,
  and no object was changed, so the buffer is not cleared.
\<close>

theorem publishEvents_no_isolation:
  "(fst (publishEvents env r w) = None \<longrightarrow>
      trace (snd (publishEvents env r w)) =
        trace w @ map (\<lambda>e. (PublishEvent e, None)) (getDomainEvents (heap w r))
      \<and> getDomainEvents (heap (snd (publishEvents env r w)) r) = [])
   \<and> (\<forall>x. fst (publishEvents env r w) = Some x \<longrightarrow>
      (\<exists>pre e post. getDomainEvents (heap w r) = pre @ e # post
         \<and> trace (snd (publishEvents env r w)) =
             trace w @ map (\<lambda>e. (PublishEvent e, None)) pre @ [(PublishEvent e, Some x)])
      \<and> heap (snd (publishEvents env r w)) = heap w)"
proof -
  have a: "fst (publishEvents env r w) = None \<longrightarrow>
      trace (snd (publishEvents env r w)) =
        trace w @ map (\<lambda>e. (PublishEvent e, None)) (getDomainEvents (heap w r))
      \<and> getDomainEvents (heap (snd (publishEvents env r w)) r) = []"
  proof
    assume n: "fst (publishEvents env r w) = None"
    then have "fst (publishLoop env (getDomainEvents (heap w r)) (trace w)) = None"
      by (simp add: publishEvents_result)
    from publishLoop_None [OF this] publishEvents_heap_None [OF n]
    show "trace (snd (publishEvents env r w)) =
        trace w @ map (\<lambda>e. (PublishEvent e, None)) (getDomainEvents (heap w r))
      \<and> getDomainEvents (heap (snd (publishEvents env r w)) r) = []"
      by (simp add: publishEvents_trace getDomainEvents_def clearEvents_def)
  qed
  have b: "\<forall>x. fst (publishEvents env r w) = Some x \<longrightarrow>
      (\<exists>pre e post. getDomainEvents (heap w r) = pre @ e # post
         \<and> trace (snd (publishEvents env r w)) =
             trace w @ map (\<lambda>e. (PublishEvent e, None)) pre @ [(PublishEvent e, Some x)])
      \<and> heap (snd (publishEvents env r w)) = heap w"
  proof (intro allI impI)
    fix x assume s: "fst (publishEvents env r w) = Some x"
    then have "fst (publishLoop env (getDomainEvents (heap w r)) (trace w)) = Some x"
      by (simp add: publishEvents_result)
    from publishLoop_Some [OF this] publishEvents_heap_Some [OF s]
    show "(\<exists>pre e post. getDomainEvents (heap w r) = pre @ e # post
         \<and> trace (snd (publishEvents env r w)) =
             trace w @ map (\<lambda>e. (PublishEvent e, None)) pre @ [(PublishEvent e, Some x)])
      \<and> heap (snd (publishEvents env r w)) = heap w"
      by (simp add: publishEvents_trace)
  qed
  from a b show ?thesis by blast
qed

text \<open>
  Both cases: a created partner published with no failure, and a renamed partner whose
  second event fails.
\<close>

theorem publishEvents_no_isolation_witness:
  "fst (publishEvents env_ok 0 (world_of (Partner_create ''p1'' 11 10 ''Acme'') False)) = None
   \<and> trace (snd (publishEvents env_ok 0 (world_of (Partner_create ''p1'' 11 10 ''Acme'') False)))
       = [(PublishEvent (PartnerCreated 11 10 ''p1'' ''Acme''), None)]
   \<and> getDomainEvents (heap (snd (publishEvents env_ok 0
         (world_of (Partner_create ''p1'' 11 10 ''Acme'') False))) 0) = []
   \<and> fst (publishEvents env_listener_fails 0
        (world_of (snd (changeName 22 20 ''B'' (Partner_create ''p1'' 11 10 ''A''))) False))
       = Some (RuntimeException ''listener failed'')
   \<and> heap (snd (publishEvents env_listener_fails 0
        (world_of (snd (changeName 22 20 ''B'' (Partner_create ''p1'' 11 10 ''A''))) False)))
       = heap (world_of (snd (changeName 22 20 ''B'' (Partner_create ''p1'' 11 10 ''A''))) False)"
proof -
  let ?w = "world_of (Partner_create ''p1'' 11 10 ''Acme'') False"
  let ?v = "world_of (snd (changeName 22 20 ''B'' (Partner_create ''p1'' 11 10 ''A''))) False"
  have n: "fst (publishEvents env_ok 0 ?w) = None"
    by (simp add: publishEvents_def invoke_def getDomainEvents_def clearEvents_def world_of_def
          Partner_create_def new_Partner_def addEvent_def env_ok_def)
  have e: "getDomainEvents (heap ?w 0) = [PartnerCreated 11 10 ''p1'' ''Acme'']"
    by (simp add: getDomainEvents_def world_of_def Partner_create_def new_Partner_def
          addEvent_def)
  have t: "trace ?w = []" by (simp add: world_of_def)
  have f: "fst (publishEvents env_listener_fails 0 ?v) = Some (RuntimeException ''listener failed'')"
    by (simp add: publishEvents_def invoke_def getDomainEvents_def clearEvents_def world_of_def
          Partner_create_def new_Partner_def addEvent_def changeName_def Let_def
          env_listener_fails_def)
  from publishEvents_no_isolation [where env = env_ok and r = 0 and w = ?w] n e t
  have 1: "trace (snd (publishEvents env_ok 0 ?w))
       = [(PublishEvent (PartnerCreated 11 10 ''p1'' ''Acme''), None)]
     \<and> getDomainEvents (heap (snd (publishEvents env_ok 0 ?w)) 0) = []"
    by simp
  from publishEvents_no_isolation [where env = env_listener_fails and r = 0 and w = ?v] f
  have 2: "heap (snd (publishEvents env_listener_fails 0 ?v)) = heap ?v"
    by simp
  from n f 1 2 show ?thesis by simp
qed

lemma publishEvents_normal:
  assumes "fst (publishEvents env r w) = None"
  shows "trace (snd (publishEvents env r w)) =
           trace w @ map (\<lambda>e. (PublishEvent e, None)) (getDomainEvents (heap w r))"
    and "getDomainEvents (heap (snd (publishEvents env r w)) r) = []"
proof -
  from assms have "fst (publishLoop env (getDomainEvents (heap w r)) (trace w)) = None"
    by (simp add: publishEvents_result)
  from publishLoop_None [OF this]
  show "trace (snd (publishEvents env r w)) =
           trace w @ map (\<lambda>e. (PublishEvent e, None)) (getDomainEvents (heap w r))"
    by (simp add: publishEvents_trace)
  from publishEvents_heap_None [OF assms]
  show "getDomainEvents (heap (snd (publishEvents env r w)) r) = []"
    by (simp add: getDomainEvents_def clearEvents_def)
qed

lemma publishEvents_failed:
  assumes "fst (publishEvents env r w) = Some x"
  shows "\<exists>pre e post. getDomainEvents (heap w r) = pre @ e # post
           \<and> trace (snd (publishEvents env r w)) =
               trace w @ map (\<lambda>e. (PublishEvent e, None)) pre @ [(PublishEvent e, Some x)]"
    and "heap (snd (publishEvents env r w)) = heap w"
proof -
  from assms have "fst (publishLoop env (getDomainEvents (heap w r)) (trace w)) = Some x"
    by (simp add: publishEvents_result)
  from publishLoop_Some [OF this]
  show "\<exists>pre e post. getDomainEvents (heap w r) = pre @ e # post
           \<and> trace (snd (publishEvents env r w)) =
               trace w @ map (\<lambda>e. (PublishEvent e, None)) pre @ [(PublishEvent e, Some x)]"
    by (simp add: publishEvents_trace)
  from publishEvents_heap_Some [OF assms]
  show "heap (snd (publishEvents env r w)) = heap w" .
qed

text \<open>
  Claim C9, as stated, asks that the call made outside a transaction not fail and that it
  clear the buffer. The call is \<open>publishEvents\<close>, which fails when a hand-over fails: for a
  partner that was created and renamed, with a listener for \<open>PartnerNameChanged\<close> that
  throws and no synchronization active, \<open>publishAfterCommit\<close> ends with that exception and
  the buffer keeps both events.
\<close>

theorem publishAfterCommit_without_transaction_counterexample:
  "\<not> synchronizationActive
        (world_of (snd (changeName 22 20 ''B'' (Partner_create ''p1'' 11 10 ''A''))) False)
   \<and> fst (publishAfterCommit env_listener_fails 0
        (world_of (snd (changeName 22 20 ''B'' (Partner_create ''p1'' 11 10 ''A''))) False))
     = Some (RuntimeException ''listener failed'')
   \<and> trace (snd (publishAfterCommit env_listener_fails 0
        (world_of (snd (changeName 22 20 ''B'' (Partner_create ''p1'' 11 10 ''A''))) False)))
     = [(PublishEvent (PartnerCreated 11 10 ''p1'' ''A''), None),
        (PublishEvent (PartnerNameChanged 22 20 ''p1'' ''B''),
         Some (RuntimeException ''listener failed''))]
   \<and> getDomainEvents (heap (snd (publishAfterCommit env_listener_fails 0
        (world_of (snd (changeName 22 20 ''B'' (Partner_create ''p1'' 11 10 ''A''))) False))) 0)
     = [PartnerCreated 11 10 ''p1'' ''A'', PartnerNameChanged 22 20 ''p1'' ''B'']"
  by (simp add: publishAfterCommit_def publishEvents_def invoke_def getDomainEvents_def
        clearEvents_def world_of_def Partner_create_def new_Partner_def addEvent_def
        changeName_def Let_def env_listener_fails_def)

text \<open>
  Claim C9, amended. Called while no transaction synchronization is active,
  \<open>publishAfterCommit\<close> raises no error of its own, registers nothing and publishes at once:
  it is the call of \<open>publishEvents\<close>. If it returns normally, every buffered event has been
  handed to the publisher in buffer order, after whatever the trace held before and so with
  no commit needed in it, and the buffer is empty. If it throws, the exception is the one
  of the first hand-over that failed, the events after that one were not handed over and
  the buffer is not cleared. It returns normally whenever the publisher accepts every
  event.
\<close>

theorem publishAfterCommit_without_transaction:
  assumes "\<not> synchronizationActive w"
  shows "publishAfterCommit env r w = publishEvents env r w
    \<and> synchronizations (snd (publishAfterCommit env r w)) = synchronizations w
    \<and> (fst (publishAfterCommit env r w) = None \<longrightarrow>
         trace (snd (publishAfterCommit env r w)) =
           trace w @ map (\<lambda>e. (PublishEvent e, None)) (getDomainEvents (heap w r))
         \<and> getDomainEvents (heap (snd (publishAfterCommit env r w)) r) = [])
    \<and> (\<forall>x. fst (publishAfterCommit env r w) = Some x \<longrightarrow>
         (\<exists>pre e post. getDomainEvents (heap w r) = pre @ e # post
            \<and> trace (snd (publishAfterCommit env r w)) =
                trace w @ map (\<lambda>e. (PublishEvent e, None)) pre @ [(PublishEvent e, Some x)])
         \<and> heap (snd (publishAfterCommit env r w)) = heap w)
    \<and> ((\<forall>tr e. env tr (PublishEvent e) = None) \<longrightarrow> fst (publishAfterCommit env r w) = None)"
proof -
  have eq: "publishAfterCommit env r w = publishEvents env r w"
    using assms by (simp add: publishAfterCommit_def)
  have s: "synchronizations (snd (publishEvents env r w)) = synchronizations w"
    by (simp add: publishEvents_synchronizations)
  have n: "fst (publishEvents env r w) = None \<longrightarrow>
         trace (snd (publishEvents env r w)) =
           trace w @ map (\<lambda>e. (PublishEvent e, None)) (getDomainEvents (heap w r))
         \<and> getDomainEvents (heap (snd (publishEvents env r w)) r) = []"
    using publishEvents_normal [of env r w] by blast
  have f: "\<forall>x. fst (publishEvents env r w) = Some x \<longrightarrow>
         (\<exists>pre e post. getDomainEvents (heap w r) = pre @ e # post
            \<and> trace (snd (publishEvents env r w)) =
                trace w @ map (\<lambda>e. (PublishEvent e, None)) pre @ [(PublishEvent e, Some x)])
         \<and> heap (snd (publishEvents env r w)) = heap w"
    using publishEvents_failed [of env r w] by blast
  have k: "(\<forall>tr e. env tr (PublishEvent e) = None) \<longrightarrow> fst (publishEvents env r w) = None"
    by (simp add: publishEvents_result publishLoop_ok)
  from s n f k show ?thesis unfolding eq by blast
qed

text \<open>
  A created partner published outside any transaction, on an empty trace, with a publisher
  that accepts every event; and the renamed partner whose second hand-over fails.
\<close>

theorem publishAfterCommit_without_transaction_witness:
  "\<not> synchronizationActive (world_of (Partner_create ''p1'' 11 10 ''Acme'') False)
   \<and> (\<forall>tr e. env_ok tr (PublishEvent e) = None)
   \<and> trace (world_of (Partner_create ''p1'' 11 10 ''Acme'') False) = []
   \<and> fst (publishAfterCommit env_ok 0 (world_of (Partner_create ''p1'' 11 10 ''Acme'') False)) = None
   \<and> trace (snd (publishAfterCommit env_ok 0 (world_of (Partner_create ''p1'' 11 10 ''Acme'') False)))
       = [(PublishEvent (PartnerCreated 11 10 ''p1'' ''Acme''), None)]
   \<and> getDomainEvents (heap (snd (publishAfterCommit env_ok 0
         (world_of (Partner_create ''p1'' 11 10 ''Acme'') False))) 0) = []
   \<and> \<not> synchronizationActive
        (world_of (snd (changeName 22 20 ''B'' (Partner_create ''p1'' 11 10 ''A''))) False)
   \<and> fst (publishAfterCommit env_listener_fails 0
        (world_of (snd (changeName 22 20 ''B'' (Partner_create ''p1'' 11 10 ''A''))) False))
       = Some (RuntimeException ''listener failed'')
   \<and> heap (snd (publishAfterCommit env_listener_fails 0
        (world_of (snd (changeName 22 20 ''B'' (Partner_create ''p1'' 11 10 ''A''))) False)))
       = heap (world_of (snd (changeName 22 20 ''B'' (Partner_create ''p1'' 11 10 ''A''))) False)"
proof -
  let ?w = "world_of (Partner_create ''p1'' 11 10 ''Acme'') False"
  let ?v = "world_of (snd (changeName 22 20 ''B'' (Partner_create ''p1'' 11 10 ''A''))) False"
  have a: "\<not> synchronizationActive ?w" by (simp add: world_of_def)
  have b: "\<not> synchronizationActive ?v" by (simp add: world_of_def)
  have o: "\<forall>tr e. env_ok tr (PublishEvent e) = None" by (simp add: env_ok_def)
  have e: "getDomainEvents (heap ?w 0) = [PartnerCreated 11 10 ''p1'' ''Acme'']"
    by (simp add: getDomainEvents_def world_of_def Partner_create_def new_Partner_def
          addEvent_def)
  have t: "trace ?w = []" by (simp add: world_of_def)
  have f: "fst (publishAfterCommit env_listener_fails 0 ?v)
             = Some (RuntimeException ''listener failed'')"
    by (simp add: publishAfterCommit_def publishEvents_def invoke_def getDomainEvents_def
          clearEvents_def world_of_def Partner_create_def new_Partner_def addEvent_def
          changeName_def Let_def env_listener_fails_def)
  from publishAfterCommit_without_transaction [OF a, where env = env_ok and r = 0] o
  have n: "fst (publishAfterCommit env_ok 0 ?w) = None" by blast
  from publishAfterCommit_without_transaction [OF a, where env = env_ok and r = 0] n
  have c: "trace (snd (publishAfterCommit env_ok 0 ?w)) =
        trace ?w @ map (\<lambda>e. (PublishEvent e, None)) (getDomainEvents (heap ?w 0))
    \<and> getDomainEvents (heap (snd (publishAfterCommit env_ok 0 ?w)) 0) = []"
    by blast
  from publishAfterCommit_without_transaction [OF b, where env = env_listener_fails and r = 0] f
  have h: "heap (snd (publishAfterCommit env_listener_fails 0 ?v)) = heap ?v"
    by blast
  from c e t have c': "trace (snd (publishAfterCommit env_ok 0 ?w))
       = [(PublishEvent (PartnerCreated 11 10 ''p1'' ''Acme''), None)]
     \<and> getDomainEvents (heap (snd (publishAfterCommit env_ok 0 ?w)) 0) = []"
    by simp
  from a b o t n c' f h show ?thesis by blast
qed

section \<open>Properties of the NestJS pipeline\<close>

lemma emitted_append: "emitted (xs @ ys) = emitted xs @ emitted ys"
  by (induction xs rule: emitted.induct) simp_all

lemma emitted_map_EmitAsync:
  "emitted (map (\<lambda>e. (EmitAsync (getEventName e) e, r)) es) = es"
  by (induction es) simp_all

lemma emitEach_None:
  "fst (emitEach env es tr) = None \<Longrightarrow>
   snd (emitEach env es tr) = tr @ map (\<lambda>e. (EmitAsync (getEventName e) e, None)) es"
  by (induction es arbitrary: tr) (auto simp: invoke_def split: option.splits)

lemma emitEach_suffix:
  "\<exists>D. snd (emitEach env es tr) = tr @ D \<and> list_all isEmitAsync D
       \<and> (\<exists>rest. es = emitted D @ rest)"
proof (induction es arbitrary: tr)
  case Nil
  show ?case by simp
next
  case (Cons e es)
  show ?case
  proof (cases "env tr (EmitAsync (getEventName e) e)")
    case None
    obtain D where D: "snd (emitEach env es (tr @ [(EmitAsync (getEventName e) e, None)]))
          = (tr @ [(EmitAsync (getEventName e) e, None)]) @ D"
      "list_all isEmitAsync D" "\<exists>rest. es = emitted D @ rest"
      using Cons.IH [of "tr @ [(EmitAsync (getEventName e) e, None)]"] by blast
    show ?thesis
      by (rule exI [of _ "(EmitAsync (getEventName e) e, None) # D"])
         (use None D in \<open>simp add: invoke_def\<close>)
  next
    case (Some x)
    show ?thesis
      by (rule exI [of _ "[(EmitAsync (getEventName e) e, Some x)]"])
         (use Some in \<open>simp add: invoke_def\<close>)
  qed
qed

lemma publishAll_None:
  "fst (publishAll env roots tr) = None \<Longrightarrow>
   snd (publishAll env roots tr) =
     tr @ map (\<lambda>e. (EmitAsync (getEventName e) e, None)) (concat (map events roots))"
proof (induction roots arbitrary: tr)
  case Nil
  show ?case by simp
next
  case (Cons a roots)
  show ?case
  proof (cases "fst (emitEach env (events a) tr)")
    case None
    note s = emitEach_None [OF None]
    have pa: "publishAll env (a # roots) tr = publishAll env roots (snd (emitEach env (events a) tr))"
      using None by (cases "emitEach env (events a) tr") (simp add: publish_def)
    from Cons.prems pa have "fst (publishAll env roots (snd (emitEach env (events a) tr))) = None"
      by simp
    from Cons.IH [OF this] show ?thesis unfolding pa by (simp add: s)
  next
    case (Some x)
    with Cons.prems show ?thesis
      by (cases "emitEach env (events a) tr") (simp add: publish_def)
  qed
qed

lemma publishAll_suffix:
  "\<exists>D. snd (publishAll env roots tr) = tr @ D \<and> list_all isEmitAsync D
       \<and> (\<exists>rest. concat (map events roots) = emitted D @ rest)"
proof (induction roots arbitrary: tr)
  case Nil
  show ?case by simp
next
  case (Cons a roots)
  obtain D1 rest1 where D1: "snd (emitEach env (events a) tr) = tr @ D1"
      "list_all isEmitAsync D1" "events a = emitted D1 @ rest1"
    using emitEach_suffix [of env "events a" tr] by blast
  show ?case
  proof (cases "fst (emitEach env (events a) tr)")
    case None
    have pa: "publishAll env (a # roots) tr = publishAll env roots (tr @ D1)"
      using None D1(1) by (cases "emitEach env (events a) tr") (simp add: publish_def)
    have e1: "emitted D1 = events a"
      using emitEach_None [OF None] D1(1) by (simp add: emitted_map_EmitAsync)
    obtain D2 rest2 where D2: "snd (publishAll env roots (tr @ D1)) = (tr @ D1) @ D2"
      "list_all isEmitAsync D2" "concat (map events roots) = emitted D2 @ rest2"
      using Cons.IH [of "tr @ D1"] by blast
    show ?thesis
      by (rule exI [of _ "D1 @ D2"])
         (unfold pa, use D1(2) D2 e1 in \<open>simp add: emitted_append\<close>)
  next
    case (Some x)
    have pa: "publishAll env (a # roots) tr = (Some x, tr @ D1)"
      using Some D1(1) by (cases "emitEach env (events a) tr") (simp add: publish_def)
    show ?thesis
      by (rule exI [of _ D1]) (unfold pa, use D1 in auto)
  qed
qed

lemma integration_None:
  "fst (publishAllForIntegrationEvent env roots tr) = None \<Longrightarrow>
   snd (publishAllForIntegrationEvent env roots tr) =
     tr @ map (\<lambda>a. (PublishForIntegrationEvent a, None)) roots"
  by (induction roots arbitrary: tr) (auto simp: invoke_def split: option.splits)

lemma integration_suffix:
  "\<exists>I. snd (publishAllForIntegrationEvent env roots tr) = tr @ I \<and> list_all isIntegration I"
proof (induction roots arbitrary: tr)
  case Nil
  show ?case by simp
next
  case (Cons a roots)
  show ?case
  proof (cases "env tr (PublishForIntegrationEvent a)")
    case None
    obtain I where I: "snd (publishAllForIntegrationEvent env roots
                              (tr @ [(PublishForIntegrationEvent a, None)]))
          = (tr @ [(PublishForIntegrationEvent a, None)]) @ I" "list_all isIntegration I"
      using Cons.IH [of "tr @ [(PublishForIntegrationEvent a, None)]"] by blast
    show ?thesis
      by (rule exI [of _ "(PublishForIntegrationEvent a, None) # I"])
         (use None I in \<open>simp add: invoke_def\<close>)
  next
    case (Some x)
    show ?thesis
      by (rule exI [of _ "[(PublishForIntegrationEvent a, Some x)]"])
         (use Some in \<open>simp add: invoke_def\<close>)
  qed
qed

lemma finish_None:
  assumes "fst (finish env em tr) = None"
  shows "snd (finish env em tr) =
     tr @ map (\<lambda>e. (EmitAsync (getEventName e) e, None)) (concat (map events (getAggregateRoots em)))
        @ [(Flush, None)]
        @ map (\<lambda>a. (PublishForIntegrationEvent a, None)) (getAggregateRoots em)"
proof -
  let ?roots = "getAggregateRoots em"
  obtain r1 tr1 where p: "publishAll env ?roots tr = (r1, tr1)" by (cases "publishAll env ?roots tr")
  show ?thesis
  proof (cases r1)
    case (Some x)
    with p assms show ?thesis by (simp add: finish_def)
  next
    case None
    have tr1: "tr1 = tr @ map (\<lambda>e. (EmitAsync (getEventName e) e, None)) (concat (map events ?roots))"
      using publishAll_None [of env ?roots tr] p None by simp
    show ?thesis
    proof (cases "env tr1 Flush")
      case (Some x)
      with p None assms show ?thesis by (simp add: finish_def commit_def invoke_def)
    next
      case f: None
      have fin: "finish env em tr = publishAllForIntegrationEvent env ?roots (tr1 @ [(Flush, None)])"
        using p None f by (simp add: finish_def commit_def invoke_def)
      from assms fin have "fst (publishAllForIntegrationEvent env ?roots (tr1 @ [(Flush, None)])) = None"
        by simp
      from integration_None [OF this] show ?thesis unfolding fin by (simp add: tr1)
    qed
  qed
qed

lemma finish_structure:
  "\<exists>D B. snd (finish env em tr) = tr @ D @ B \<and> list_all isEmitAsync D
        \<and> (\<exists>rest. concat (map events (getAggregateRoots em)) = emitted D @ rest)
        \<and> (B = [] \<or> (\<exists>x. B = [(Flush, Some x)])
            \<or> (\<exists>I. B = (Flush, None) # I \<and> list_all isIntegration I))"
proof -
  let ?roots = "getAggregateRoots em"
  obtain r1 tr1 where p: "publishAll env ?roots tr = (r1, tr1)" by (cases "publishAll env ?roots tr")
  obtain D where D: "tr1 = tr @ D" "list_all isEmitAsync D"
      "\<exists>rest. concat (map events ?roots) = emitted D @ rest"
    using publishAll_suffix [of env ?roots tr] p by auto
  show ?thesis
  proof (cases r1)
    case (Some x)
    have "snd (finish env em tr) = tr @ D @ []" using p Some D(1) by (simp add: finish_def)
    with D(2,3) show ?thesis by blast
  next
    case None
    show ?thesis
    proof (cases "env tr1 Flush")
      case (Some x)
      have "snd (finish env em tr) = tr @ D @ [(Flush, Some x)]"
        using p None Some D(1) by (simp add: finish_def commit_def invoke_def)
      with D(2,3) show ?thesis by blast
    next
      case f: None
      have fin: "finish env em tr = publishAllForIntegrationEvent env ?roots (tr1 @ [(Flush, None)])"
        using p None f by (simp add: finish_def commit_def invoke_def)
      obtain I where I: "snd (publishAllForIntegrationEvent env ?roots (tr1 @ [(Flush, None)]))
            = (tr1 @ [(Flush, None)]) @ I" "list_all isIntegration I"
        using integration_suffix [of env ?roots "tr1 @ [(Flush, None)]"] by blast
      have "snd (finish env em tr) = tr @ D @ ((Flush, None) # I)"
        unfolding fin using I(1) D(1) by simp
      with D(2,3) I(2) show ?thesis by blast
    qed
  qed
qed


lemma domainBeforeIntegration_append:
  assumes "\<forall>x\<in>set A. \<not> isIntegration x" and "\<forall>x\<in>set B. \<not> isEmitAsync x"
  shows "domainBeforeIntegration (A @ B)"
proof -
  have "dropWhile (\<lambda>x. \<not> isIntegration x) (A @ B) = dropWhile (\<lambda>x. \<not> isIntegration x) B"
    using assms(1) by (simp add: dropWhile_append2)
  moreover have "\<forall>x\<in>set (dropWhile (\<lambda>x. \<not> isIntegration x) B). \<not> isEmitAsync x"
    using assms(2) set_dropWhileD by fast
  ultimately show ?thesis by (simp add: domainBeforeIntegration_def list_ex_iff)
qed

lemma domainBeforeCommit_append:
  assumes "\<forall>x\<in>set A. \<not> isFlush x" and "\<forall>x\<in>set B. \<not> isEmitAsync x"
  shows "domainBeforeCommit (A @ B)"
proof -
  have "dropWhile (\<lambda>x. \<not> isFlush x) (A @ B) = dropWhile (\<lambda>x. \<not> isFlush x) B"
    using assms(1) by (simp add: dropWhile_append2)
  moreover have "\<forall>x\<in>set (dropWhile (\<lambda>x. \<not> isFlush x) B). \<not> isEmitAsync x"
    using assms(2) set_dropWhileD by fast
  ultimately show ?thesis by (simp add: domainBeforeCommit_def list_ex_iff)
qed

lemma commitBeforeIntegration_no_integration:
  assumes "\<forall>x\<in>set A. \<not> isIntegration x"
  shows "commitBeforeIntegration A"
proof -
  have "\<forall>x\<in>set (takeWhile (\<lambda>x. x \<noteq> (Flush, None)) A). \<not> isIntegration x"
    using assms set_takeWhileD by fast
  then show ?thesis by (simp add: commitBeforeIntegration_def list_ex_iff)
qed

lemma commitBeforeIntegration_after_commit:
  assumes "\<forall>x\<in>set A. \<not> isIntegration x"
  shows "commitBeforeIntegration (A @ (Flush, None) # B)"
proof -
  have "takeWhile (\<lambda>x. x \<noteq> (Flush, None)) (A @ (Flush, None) # B)
        = takeWhile (\<lambda>x. x \<noteq> (Flush, None)) A"
    by (induction A) simp_all
  then show ?thesis
    using commitBeforeIntegration_no_integration [OF assms]
    by (simp add: commitBeforeIntegration_def)
qed

lemma isEmitAsync_not_others:
  "isEmitAsync x \<Longrightarrow> \<not> isIntegration x \<and> \<not> isFlush x"
  by (cases x rule: isEmitAsync.cases) simp_all

lemma isIntegration_not_others:
  "isIntegration x \<Longrightarrow> \<not> isEmitAsync x \<and> \<not> isFlush x"
  by (cases x rule: isIntegration.cases) simp_all

lemma finish_phases:
  "\<exists>D B. snd (finish env em tr) = tr @ D @ B
        \<and> (\<forall>x\<in>set D. \<not> isIntegration x \<and> \<not> isFlush x)
        \<and> (\<forall>x\<in>set B. \<not> isEmitAsync x)
        \<and> ((\<forall>x\<in>set B. \<not> isIntegration x) \<or> (\<exists>B'. B = (Flush, None) # B'))"
proof -
  obtain D B where s: "snd (finish env em tr) = tr @ D @ B" "list_all isEmitAsync D"
     "B = [] \<or> (\<exists>x. B = [(Flush, Some x)])
        \<or> (\<exists>I. B = (Flush, None) # I \<and> list_all isIntegration I)"
    using finish_structure [of env em tr] by blast
  have d: "\<forall>x\<in>set D. \<not> isIntegration x \<and> \<not> isFlush x"
    using s(2) isEmitAsync_not_others by (auto simp: list_all_iff)
  have b1: "\<forall>x\<in>set B. \<not> isEmitAsync x"
    using s(3) isIntegration_not_others by (auto simp: list_all_iff)
  have b2: "(\<forall>x\<in>set B. \<not> isIntegration x) \<or> (\<exists>B'. B = (Flush, None) # B')"
    using s(3) by auto
  from s(1) d b1 b2 show ?thesis by blast
qed

lemma catch_block_trace:
  "\<exists>r. snd (catch_block env e tr) = tr @ [(Fail, r)]"
  by (cases "env tr Fail") (simp_all add: catch_block_def invoke_def)

lemma run_phases:
  "\<exists>A B. snd (run env callback em tr) = tr @ A @ B
        \<and> (\<forall>x\<in>set A. \<not> isIntegration x \<and> \<not> isFlush x)
        \<and> (\<forall>x\<in>set B. \<not> isEmitAsync x)
        \<and> ((\<forall>x\<in>set B. \<not> isIntegration x) \<or> (\<exists>B'. B = (Flush, None) # B'))"
proof (cases "env tr Start")
  case (Some x)
  have "snd (run env callback em tr) = tr @ [(Start, Some x)] @ []"
    using Some by (simp add: run_def invoke_def)
  then show ?thesis
    by (intro exI [of _ "[(Start, Some x)]"] exI [of _ "[]"]) simp
next
  case None
  let ?tr0 = "tr @ [(Start, None)]"
  show ?thesis
  proof (cases "callback em")
    case (Inl e)
    obtain r where r: "snd (catch_block env e ?tr0 :: (throwable + 'a) \<times> trace) = ?tr0 @ [(Fail, r)]"
      using catch_block_trace by blast
    have "snd (run env callback em tr) = tr @ [(Start, None)] @ [(Fail, r)]"
      using None Inl r by (simp add: run_def invoke_def)
    then show ?thesis
      by (intro exI [of _ "[(Start, None)]"] exI [of _ "[(Fail, r)]"]) simp
  next
    case (Inr p)
    obtain result em' where p: "p = (result, em')" by (cases p)
    obtain D B where s: "snd (finish env em' ?tr0) = ?tr0 @ D @ B"
        "\<forall>x\<in>set D. \<not> isIntegration x \<and> \<not> isFlush x"
        "\<forall>x\<in>set B. \<not> isEmitAsync x"
        "(\<forall>x\<in>set B. \<not> isIntegration x) \<or> (\<exists>B'. B = (Flush, None) # B')"
      using finish_phases [of env em' ?tr0] by blast
    show ?thesis
    proof (cases "fst (finish env em' ?tr0)")
      case n: None
      have "snd (run env callback em tr) = tr @ ((Start, None) # D) @ B"
        using None Inr p n s(1)
        by (cases "finish env em' ?tr0") (simp add: run_def invoke_def)
      with s(2,3,4) show ?thesis
        by (intro exI [of _ "(Start, None) # D"] exI [of _ B]) simp
    next
      case (Some e)
      obtain r where r: "snd (catch_block env e (?tr0 @ D @ B) :: (throwable + 'a) \<times> trace)
             = (?tr0 @ D @ B) @ [(Fail, r)]"
        using catch_block_trace by blast
      have t: "snd (run env callback em tr) = tr @ ((Start, None) # D) @ (B @ [(Fail, r)])"
        using None Inr p Some s(1) r
        by (cases "finish env em' ?tr0") (simp add: run_def invoke_def)
      have "(\<forall>x\<in>set (B @ [(Fail, r)]). \<not> isIntegration x)
            \<or> (\<exists>B'. B @ [(Fail, r)] = (Flush, None) # B')"
        using s(4) by auto
      with t s(2,3) show ?thesis
        by (intro exI [of _ "(Start, None) # D"] exI [of _ "B @ [(Fail, r)]"]) simp
    qed
  qed
qed

lemma phases_commitBeforeIntegration:
  assumes "\<forall>x\<in>set A. \<not> isIntegration x \<and> \<not> isFlush x"
    and "(\<forall>x\<in>set B. \<not> isIntegration x) \<or> (\<exists>B'. B = (Flush, None) # B')"
  shows "commitBeforeIntegration (A @ B)"
proof -
  from assms(2) show ?thesis
  proof
    assume "\<forall>x\<in>set B. \<not> isIntegration x"
    with assms(1) have "\<forall>x\<in>set (A @ B). \<not> isIntegration x" by auto
    then show ?thesis by (rule commitBeforeIntegration_no_integration)
  next
    assume "\<exists>B'. B = (Flush, None) # B'"
    then obtain B' where "B = (Flush, None) # B'" by blast
    moreover have "\<forall>x\<in>set A. \<not> isIntegration x" using assms(1) by simp
    ultimately show ?thesis by (simp add: commitBeforeIntegration_after_commit)
  qed
qed

text \<open>
  Claim C1, as stated, asks that no event reach a subscriber before the commit has
  returned normally. \<open>finish\<close> publishes the domain events first and commits afterwards:
  the \<open>PartnerCreated\<close> event of a persisted partner is emitted before the flush, and it
  has been emitted even when the flush then fails.
\<close>

theorem finish_dispatches_before_commit_counterexample:
  "finish env_ok
      \<lparr>persistStack = [\<lparr>events = [PartnerCreated 11 10 ''p1'' ''Acme'']\<rparr>],
       removeStack = []\<rparr> [] =
     (None, [(EmitAsync ''PartnerCreated'' (PartnerCreated 11 10 ''p1'' ''Acme''), None),
             (Flush, None),
             (PublishForIntegrationEvent \<lparr>events = [PartnerCreated 11 10 ''p1'' ''Acme'']\<rparr>, None)])
   \<and> \<not> commitBeforeDomain
         (snd (finish env_ok
             \<lparr>persistStack = [\<lparr>events = [PartnerCreated 11 10 ''p1'' ''Acme'']\<rparr>],
              removeStack = []\<rparr> []))
   \<and> finish env_flush_fails

            \<lparr>persistStack = [\<lparr>events = [PartnerCreated 11 10 ''p1'' ''Acme'']\<rparr>],
             removeStack = []\<rparr> [] =
     (Some (Error ''flush failed''),
      [(EmitAsync ''PartnerCreated'' (PartnerCreated 11 10 ''p1'' ''Acme''), None),
       (Flush, Some (Error ''flush failed''))])
   \<and> run env_flush_fails
        (persist_use_case \<lparr>events = [PartnerCreated 11 10 ''p1'' ''Acme'']\<rparr>) em_empty [] =
     (Inl (Error ''flush failed''),
      [(Start, None),
       (EmitAsync ''PartnerCreated'' (PartnerCreated 11 10 ''p1'' ''Acme''), None),
       (Flush, Some (Error ''flush failed'')),
       (Fail, None)])"
  by (simp add: run_def catch_block_def persist_use_case_def finish_def commit_def publish_def
        invoke_def getAggregateRoots_def em_empty_def env_ok_def
        env_flush_fails_def commitBeforeDomain_def)

text \<open>
  Claim C1, amended. In every run of \<open>ApplicationService.run\<close> the domain events go to
  the domain subscribers before the commit is attempted, and what waits for the commit is
  the integration hand-off: no aggregate is handed to \<open>publishForIntegrationEvent\<close>
  before a commit has returned normally. In the Spring sample, \<open>publishAfterCommit\<close>
  called with an active synchronization publishes nothing itself and only registers the
  synchronization whose \<open>afterCommit\<close> publishes.
\<close>

theorem run_commit_only_precedes_integration:
  "commitBeforeIntegration (drop (length tr) (snd (run env callback em tr)))
   \<and> domainBeforeCommit (drop (length tr) (snd (run env callback em tr)))
   \<and> (synchronizationActive w \<longrightarrow>
        publishAfterCommit env' r w = (None, w\<lparr>synchronizations := synchronizations w @ [r]\<rparr>)
        \<and> trace (snd (publishAfterCommit env' r w)) = trace w)
   \<and> afterCommit env' r w = publishEvents env' r w"
proof -
  obtain A B where s: "snd (run env callback em tr) = tr @ A @ B"
      "\<forall>x\<in>set A. \<not> isIntegration x \<and> \<not> isFlush x"
      "\<forall>x\<in>set B. \<not> isEmitAsync x"
      "(\<forall>x\<in>set B. \<not> isIntegration x) \<or> (\<exists>B'. B = (Flush, None) # B')"
    using run_phases [of env callback em tr] by blast
  have d: "drop (length tr) (snd (run env callback em tr)) = A @ B" using s(1) by simp
  have "commitBeforeIntegration (A @ B)" using s(2,4) by (rule phases_commitBeforeIntegration)
  moreover have "domainBeforeCommit (A @ B)" using s(2,3) by (simp add: domainBeforeCommit_append)
  ultimately show ?thesis by (simp add: d publishAfterCommit_def afterCommit_def)
qed

text \<open>
  One partner persisted by the use case: start, emit, flush, integration hand-off.
\<close>

theorem run_commit_only_precedes_integration_witness:
  "snd (run env_ok (persist_use_case \<lparr>events = [PartnerCreated 11 10 ''p1'' ''Acme'']\<rparr>) em_empty [])
     = [(Start, None),
        (EmitAsync ''PartnerCreated'' (PartnerCreated 11 10 ''p1'' ''Acme''), None),
        (Flush, None),
        (PublishForIntegrationEvent \<lparr>events = [PartnerCreated 11 10 ''p1'' ''Acme'']\<rparr>, None)]
   \<and> commitBeforeIntegration
        (snd (run env_ok (persist_use_case \<lparr>events = [PartnerCreated 11 10 ''p1'' ''Acme'']\<rparr>) em_empty []))
   \<and> domainBeforeCommit
        (snd (run env_ok (persist_use_case \<lparr>events = [PartnerCreated 11 10 ''p1'' ''Acme'']\<rparr>) em_empty []))
   \<and> synchronizationActive (world_of (Partner_create ''p1'' 11 10 ''Acme'') True)
   \<and> publishAfterCommit env_ok 0 (world_of (Partner_create ''p1'' 11 10 ''Acme'') True) =
       (None, (world_of (Partner_create ''p1'' 11 10 ''Acme'') True)\<lparr>synchronizations := [0]\<rparr>)"
proof -
  have t: "snd (run env_ok (persist_use_case \<lparr>events = [PartnerCreated 11 10 ''p1'' ''Acme'']\<rparr>) em_empty [])
     = [(Start, None),
        (EmitAsync ''PartnerCreated'' (PartnerCreated 11 10 ''p1'' ''Acme''), None),
        (Flush, None),
        (PublishForIntegrationEvent \<lparr>events = [PartnerCreated 11 10 ''p1'' ''Acme'']\<rparr>, None)]"
    by (simp add: run_def persist_use_case_def finish_def commit_def publish_def invoke_def
          getAggregateRoots_def em_empty_def env_ok_def)
  have a: "synchronizationActive (world_of (Partner_create ''p1'' 11 10 ''Acme'') True)"
    by (simp add: world_of_def)
  have s: "synchronizations (world_of (Partner_create ''p1'' 11 10 ''Acme'') True) = []"
    by (simp add: world_of_def)
  from run_commit_only_precedes_integration
         [where tr = "[]" and env = env_ok
            and callback = "persist_use_case \<lparr>events = [PartnerCreated 11 10 ''p1'' ''Acme'']\<rparr>"
            and em = em_empty and w = "world_of (Partner_create ''p1'' 11 10 ''Acme'') True"
            and env' = env_ok and r = 0]
       a s t
  show ?thesis by simp
qed

text \<open>
  Claim C7. In \<open>finish\<close> no event goes to a domain subscriber once the first aggregate
  has been handed to \<open>publishForIntegrationEvent\<close>; and when \<open>finish\<close> returns normally
  its calls were exactly: every event of every aggregate emitted, then the flush, then
  every aggregate handed off for integration.
\<close>

theorem finish_domain_before_integration:
  "domainBeforeIntegration (drop (length tr) (snd (finish env em tr)))
   \<and> (fst (finish env em tr) = None \<longrightarrow>
        drop (length tr) (snd (finish env em tr)) =
          map (\<lambda>e. (EmitAsync (getEventName e) e, None)) (concat (map events (getAggregateRoots em)))
          @ [(Flush, None)]
          @ map (\<lambda>a. (PublishForIntegrationEvent a, None)) (getAggregateRoots em))"
proof -
  obtain D B where s: "snd (finish env em tr) = tr @ D @ B"
      "\<forall>x\<in>set D. \<not> isIntegration x \<and> \<not> isFlush x"
      "\<forall>x\<in>set B. \<not> isEmitAsync x"
    using finish_phases [of env em tr] by blast
  have "domainBeforeIntegration (D @ B)" using s(2,3) by (simp add: domainBeforeIntegration_append)
  then have "domainBeforeIntegration (drop (length tr) (snd (finish env em tr)))"
    using s(1) by simp
  moreover have "fst (finish env em tr) = None \<longrightarrow>
        drop (length tr) (snd (finish env em tr)) =
          map (\<lambda>e. (EmitAsync (getEventName e) e, None)) (concat (map events (getAggregateRoots em)))
          @ [(Flush, None)]
          @ map (\<lambda>a. (PublishForIntegrationEvent a, None)) (getAggregateRoots em)"
    by (simp add: finish_None)
  ultimately show ?thesis by blast
qed

text \<open>
  One aggregate with one event: the emit, the flush, the hand-off, in that order.
\<close>

theorem finish_domain_before_integration_witness:
  "fst (finish env_ok
      \<lparr>persistStack = [\<lparr>events = [PartnerCreated 11 10 ''p1'' ''Acme'']\<rparr>],
       removeStack = []\<rparr> [])
     = None
   \<and> snd (finish env_ok
       \<lparr>persistStack = [\<lparr>events = [PartnerCreated 11 10 ''p1'' ''Acme'']\<rparr>],
        removeStack = []\<rparr> [])
     = [(EmitAsync ''PartnerCreated'' (PartnerCreated 11 10 ''p1'' ''Acme''), None),
        (Flush, None),
        (PublishForIntegrationEvent \<lparr>events = [PartnerCreated 11 10 ''p1'' ''Acme'']\<rparr>, None)]
   \<and> domainBeforeIntegration
       (snd (finish env_ok
           \<lparr>persistStack = [\<lparr>events = [PartnerCreated 11 10 ''p1'' ''Acme'']\<rparr>],
            removeStack = []\<rparr> []))"
proof -
  let ?em = "
      \<lparr>persistStack = [\<lparr>events = [PartnerCreated 11 10 ''p1'' ''Acme'']\<rparr>],
       removeStack = []\<rparr>"
  have n: "fst (finish env_ok ?em []) = None"
    by (simp add: finish_def commit_def publish_def invoke_def getAggregateRoots_def
          em_empty_def env_ok_def)
  have g: "getAggregateRoots ?em = [\<lparr>events = [PartnerCreated 11 10 ''p1'' ''Acme'']\<rparr>]"
    by (simp add: getAggregateRoots_def)
  from finish_domain_before_integration [where env = env_ok and em = ?em and tr = "[]"]
  have d: "domainBeforeIntegration (snd (finish env_ok ?em []))" by simp
  from finish_domain_before_integration [where env = env_ok and em = ?em and tr = "[]"] n
  have s: "snd (finish env_ok ?em []) =
      [(EmitAsync ''PartnerCreated'' (PartnerCreated 11 10 ''p1'' ''Acme''), None),
       (Flush, None),
       (PublishForIntegrationEvent \<lparr>events = [PartnerCreated 11 10 ''p1'' ''Acme'']\<rparr>, None)]"
    by (simp add: g)
  from n s d show ?thesis by blast
qed




text \<open>
  Claim C8, as stated, asks a second \<open>commit\<close> to fail. \<open>UnitOfWorkMikroOrm\<close> keeps no
  transaction state: committing twice flushes twice and both calls return normally.
\<close>

theorem commit_twice_counterexample:
  "fst (commit env_ok []) = None
   \<and> commit env_ok (snd (commit env_ok [])) = (None, [(Flush, None), (Flush, None)])"
  by (simp add: commit_def invoke_def env_ok_def)

text \<open>
  Claim C8, amended. \<open>UnitOfWorkMikroOrm.commit\<close> is the entity manager's flush, each
  time it is called: it fails exactly when the flush fails, with the flush's exception, and
  a second commit after a successful one succeeds whenever the flush does.
\<close>

theorem commit_is_flush:
  "fst (commit env tr) = env tr Flush
   \<and> snd (commit env tr) = tr @ [(Flush, env tr Flush)]
   \<and> (env tr Flush = None \<and> env (tr @ [(Flush, None)]) Flush = None \<longrightarrow>
        commit env (snd (commit env tr)) = (None, tr @ [(Flush, None), (Flush, None)]))"
  by (simp add: commit_def invoke_def)

text \<open>
  Two commits in the environment where every call returns normally.
\<close>

theorem commit_is_flush_witness:
  "env_ok [] Flush = None \<and> env_ok ([] @ [(Flush, None)]) Flush = None
   \<and> commit env_ok (snd (commit env_ok [])) = (None, [(Flush, None), (Flush, None)])"
proof -
  have h: "env_ok [] Flush = None \<and> env_ok ([] @ [(Flush, None)]) Flush = None"
    by (simp add: env_ok_def)
  from commit_is_flush [where env = env_ok and tr = "[]"] h
  have "commit env_ok (snd (commit env_ok [])) = (None, [] @ [(Flush, None), (Flush, None)])"
    by blast
  with h show ?thesis by simp
qed

end
